theory Spec2Isabelle
  imports Main "HOL-Library.Sublist"
begin

section \<open>Data model of the chat component\<close>

text \<open>
  The component \<^verbatim>\<open>Chat\<close> (src/unnamed/part_000) keeps the transcript in React state and
  mutates it from event handlers and from the continuations of one asynchronous handler,
  \<^verbatim>\<open>handleSubmit\<close>. The embedding keeps the handlers as functions on an explicit state
  record. Everything the handlers hand to the outside (the arguments of \<^verbatim>\<open>saveToCloud\<close>,
  of \<^verbatim>\<open>puter.fs.write\<close> and of the model calls) is appended to a log held in the state.
\<close>

datatype role = User | Ai

text \<open>The optional \<^verbatim>\<open>file\<close> field of a message: \<^verbatim>\<open>{ name, type, url }\<close>.\<close>

record file_meta =
  name :: string
  type_f :: string
  url :: string

text \<open>
  \<^verbatim>\<open>interface Message { id; role; content; file?; isThinking? }\<close>. An absent optional
  field is \<open>None\<close>. A message is pending when \<^verbatim>\<open>isThinking\<close> is \<^verbatim>\<open>true\<close>.
\<close>

record message =
  id_m :: string
  role :: role
  content :: string
  file_m :: "file_meta option"
  isThinking :: "bool option"

definition pending :: "message \<Rightarrow> bool" where
  "pending m = (isThinking m = Some True)"

definition pending_count :: "message list \<Rightarrow> nat" where
  "pending_count msgs = length (filter pending msgs)"

text \<open>Rejections of the browser's asynchronous readers.\<close>

datatype error = ReadError | ExtractError

text \<open>
  A browser \<^verbatim>\<open>File\<close>. Its name and MIME type are data; what the browser and the
  document library answer when the handler reads it are inputs of the model, held with the
  file: the object URL, the result of \<^verbatim>\<open>FileReader.readAsDataURL\<close>, of
  \<^verbatim>\<open>mammoth.extractRawText\<close> and of \<^verbatim>\<open>file.text()\<close>.
\<close>

record file_obj =
  fname :: string
  ftype :: string
  createObjectURL :: string
  readAsDataURL :: "error + string"
  extractRawText :: "error + string"
  text_f :: "error + string"

text \<open>\<^verbatim>\<open>fileDataForApi\<close>; \<^verbatim>\<open>data\<close> is \<open>None\<close> when \<^verbatim>\<open>split(',')[1]\<close> is undefined.\<close>

record inline_data =
  data :: "string option"
  mimeType :: string

datatype mode = Search | Claude

text \<open>The options object given to \<^verbatim>\<open>puter.ai.chat\<close>.\<close>

record chat_options =
  model :: string
  stream :: bool
  tools :: "string list"

text \<open>A call of a response strategy, with the arguments the handler passes.\<close>

datatype strategy_call =
  PuterChat string chat_options
| GenerateChatResponse string "inline_data option" bool bool

text \<open>
  What a suspended \<^verbatim>\<open>handleSubmit\<close> keeps in its closure while it awaits the strategy:
  the local \<^verbatim>\<open>updatedMessages2\<close>, \<^verbatim>\<open>aiMessageId\<close> and the accumulated \<^verbatim>\<open>text\<close>.
  \<open>streaming\<close> tells the two streaming branches from the third one; \<open>finished\<close> is set once
  the handler has run its \<^verbatim>\<open>finally\<close> block.
\<close>

record task =
  updatedMessages2 :: "message list"
  aiMessageId :: string
  text_acc :: string
  streaming :: bool
  finished :: bool

record state =
  messages :: "message list"
  input :: string
  isRecording :: bool
  selectedFile :: "file_obj option"
  isLoading :: bool
  isCloudSyncing :: bool
  mode_s :: mode
  puter :: bool
  saved :: "message list list"
  written :: "message list list"
  calls :: "strategy_call list"
  tasks :: "task list"
  stopped :: nat
  transcribing :: nat

section \<open>String operations of the host language\<close>

text \<open>
  \<^verbatim>\<open>String.prototype.trim\<close>, \<^verbatim>\<open>split\<close> on a one-character separator and
  \<^verbatim>\<open>toLowerCase\<close>, on the characters of the model, which are the code points below 256.
  What \<^verbatim>\<open>trim\<close> strips there is the white space and the line terminators of the
  language: tab, line feed, vertical tab, form feed, carriage return, space and the no-break
  space U+00A0. The extensions \<^verbatim>\<open>pdf\<close>, \<^verbatim>\<open>docx\<close> and \<^verbatim>\<open>txt\<close> are compared
  after \<^verbatim>\<open>toLowerCase\<close>, which the model takes on the ASCII capitals.
\<close>

definition is_space :: "char \<Rightarrow> bool" where
  "is_space c =
     (c \<in> set [CHR 0x09, CHR 0x0A, CHR 0x0B, CHR 0x0C, CHR 0x0D, CHR 0x20, CHR 0xA0])"

definition trim :: "string \<Rightarrow> string" where
  "trim s = rev (dropWhile is_space (rev (dropWhile is_space s)))"

fun split_on :: "char \<Rightarrow> string \<Rightarrow> string list" where
  "split_on c [] = [[]]"
| "split_on c (x # xs) =
     (if x = c then [] # split_on c xs
      else (case split_on c xs of
              [] \<Rightarrow> [[x]]
            | y # ys \<Rightarrow> (x # y) # ys))"

definition toLower_char :: "char \<Rightarrow> char" where
  "toLower_char c =
     (case map_of (zip ''ABCDEFGHIJKLMNOPQRSTUVWXYZ'' ''abcdefghijklmnopqrstuvwxyz'') c of
        None \<Rightarrow> c
      | Some l \<Rightarrow> l)"

definition toLowerCase :: "string \<Rightarrow> string" where
  "toLowerCase s = map toLower_char s"

text \<open>\<^verbatim>\<open>Number.prototype.toString\<close> on a natural number: its decimal digits.\<close>

definition digit_char :: "nat \<Rightarrow> char" where
  "digit_char d = ''0123456789'' ! d"

fun toString :: "nat \<Rightarrow> string" where
  "toString n =
     (if n < 10 then [digit_char n]
      else toString (n div 10) @ [digit_char (n mod 10)])"

declare toString.simps [simp del]

section \<open>Persistence\<close>

text \<open>
  \<^verbatim>\<open>saveToCloud(msgs)\<close>: the write goes out only when the provider client is loaded; a
  failing write is caught and logged, so the caller never sees it. \<open>saved\<close> records the
  snapshots handed to \<^verbatim>\<open>saveToCloud\<close>, \<open>written\<close> those handed on to
  \<^verbatim>\<open>puter.fs.write\<close>. The syncing flag is raised and lowered again in \<^verbatim>\<open>finally\<close>.
\<close>

definition saveToCloud :: "message list \<Rightarrow> state \<Rightarrow> state" where
  "saveToCloud msgs s =
     s\<lparr> saved := saved s @ [msgs],
        written := (if puter s then written s @ [msgs] else written s),
        isCloudSyncing := False \<rparr>"

section \<open>Handlers\<close>

definition handleNewChat :: "state \<Rightarrow> state" where
  "handleNewChat s =
     (saveToCloud [] (s\<lparr> messages := [] \<rparr>))\<lparr> input := [], selectedFile := None \<rparr>"

definition handleDeleteMessage :: "string \<Rightarrow> state \<Rightarrow> state" where
  "handleDeleteMessage i s =
     (let updated = filter (\<lambda>m. id_m m \<noteq> i) (messages s)
      in saveToCloud updated (s\<lparr> messages := updated \<rparr>))"

subsection \<open>Attachment dispatch\<close>

text \<open>\<^verbatim>\<open>selectedFile.name.split('.').pop()?.toLowerCase()\<close>\<close>

definition ext_of :: "file_obj \<Rightarrow> string" where
  "ext_of f = toLowerCase (last (split_on CHR ''.'' (fname f)))"

text \<open>\<^verbatim>\<open>base64Url.split(',')[1]\<close>\<close>

definition base64Data_of :: "string \<Rightarrow> string option" where
  "base64Data_of base64Url =
     (case split_on CHR '','' base64Url of
        _ # d # _ \<Rightarrow> Some d
      | _ \<Rightarrow> None)"

text \<open>
  The result of the \<^verbatim>\<open>if (selectedFile) { ... }\<close> block: the \<^verbatim>\<open>file\<close> field of the
  user message, \<^verbatim>\<open>fileDataForApi\<close> and \<^verbatim>\<open>extractedText\<close>. A rejected read leaves the
  handler through its promise, before any state is set.
\<close>

record ingested =
  userFile :: "file_meta option"
  fileDataForApi :: "inline_data option"
  extractedText :: string

definition ingest :: "file_obj option \<Rightarrow> error + ingested" where
  "ingest sel =
     (case sel of
        None \<Rightarrow> Inr \<lparr> userFile = None, fileDataForApi = None, extractedText = [] \<rparr>
      | Some f \<Rightarrow>
          (let meta = \<lparr> name = fname f, type_f = ftype f, url = createObjectURL f \<rparr>;
               ext = ext_of f
           in if ext = ''pdf'' \<or> prefix ''image/'' (ftype f) then
                (case readAsDataURL f of
                   Inl e \<Rightarrow> Inl e
                 | Inr base64Url \<Rightarrow>
                     Inr \<lparr> userFile = Some (meta\<lparr> url := base64Url \<rparr>),
                           fileDataForApi =
                             Some \<lparr> data = base64Data_of base64Url, mimeType = ftype f \<rparr>,
                           extractedText = [] \<rparr>)
              else if ext = ''docx'' then
                (case extractRawText f of
                   Inl e \<Rightarrow> Inl e
                 | Inr t \<Rightarrow>
                     Inr \<lparr> userFile = Some meta, fileDataForApi = None, extractedText = t \<rparr>)
              else if ext = ''txt'' then
                (case text_f f of
                   Inl e \<Rightarrow> Inl e
                 | Inr t \<Rightarrow>
                     Inr \<lparr> userFile = Some meta, fileDataForApi = None, extractedText = t \<rparr>)
              else Inr \<lparr> userFile = Some meta, fileDataForApi = None, extractedText = [] \<rparr>))"

subsection \<open>Prompt composition\<close>

text \<open>
  \<^verbatim>\<open>let prompt = userMessage.content;
  if (extractedText) prompt = `Document Content:\n${extractedText}\n\nUser Query: ${prompt || 'Analyze this document.'}`;\<close>
  An empty string is falsy.
\<close>

definition compose_prompt :: "string \<Rightarrow> string \<Rightarrow> string" where
  "compose_prompt userContent extracted =
     (if extracted \<noteq> [] then
        ''Document Content:'' @ [CHR 0x0A] @ extracted @ [CHR 0x0A, CHR 0x0A] @ ''User Query: '' @
          (if userContent \<noteq> [] then userContent else ''Analyze this document.'')
      else userContent)"

subsection \<open>Updating the assistant message\<close>

text \<open>
  \<^verbatim>\<open>updatedMessages2.map(msg => msg.id === aiMessageId ? { ...msg, content: c, isThinking: false } : msg)\<close>
\<close>

definition set_reply :: "string \<Rightarrow> string \<Rightarrow> message list \<Rightarrow> message list" where
  "set_reply aiId c msgs =
     map (\<lambda>msg. if id_m msg = aiId then msg\<lparr> content := c, isThinking := Some False \<rparr> else msg) msgs"

definition apology :: string where
  "apology = ''Sorry, I encountered an error processing your request.''"

text \<open>The \<^verbatim>\<open>catch\<close> block followed by \<^verbatim>\<open>finally\<close>, for the closure \<open>t\<close>.\<close>

definition on_error :: "task \<Rightarrow> state \<Rightarrow> state" where
  "on_error t s =
     (let finalUpdated = set_reply (aiMessageId t) apology (updatedMessages2 t)
      in (saveToCloud finalUpdated (s\<lparr> messages := finalUpdated \<rparr>))\<lparr> isLoading := False \<rparr>)"

text \<open>The end of a branch of the \<^verbatim>\<open>try\<close> block followed by \<^verbatim>\<open>finally\<close>.\<close>

definition on_final :: "task \<Rightarrow> string \<Rightarrow> state \<Rightarrow> state" where
  "on_final t responseText s =
     (let finalUpdated = set_reply (aiMessageId t) responseText (updatedMessages2 t)
      in (saveToCloud finalUpdated (s\<lparr> messages := finalUpdated \<rparr>))\<lparr> isLoading := False \<rparr>)"

text \<open>
  One turn of \<^verbatim>\<open>for await (const part of chat_resp)\<close>:
  \<^verbatim>\<open>text += part?.text || ''\<close>, then the transcript is set from \<^verbatim>\<open>updatedMessages2\<close>.
  A part with no text is \<open>None\<close>.
\<close>

definition part_text :: "string option \<Rightarrow> string" where
  "part_text p = (case p of None \<Rightarrow> [] | Some t \<Rightarrow> t)"

definition on_part :: "string option \<Rightarrow> task \<Rightarrow> state \<Rightarrow> task \<times> state" where
  "on_part p t s =
     (let text' = text_acc t @ part_text p;
          updated = set_reply (aiMessageId t) text' (updatedMessages2 t)
      in (t\<lparr> text_acc := text' \<rparr>, s\<lparr> messages := updated \<rparr>))"

subsection \<open>Submitting\<close>

text \<open>
  \<^verbatim>\<open>handleSubmit\<close> up to its suspension on the strategy. \<open>now1\<close> and \<open>now2\<close> are
  the two readings of \<^verbatim>\<open>Date.now()\<close>. The handler works on the \<^verbatim>\<open>messages\<close>,
  \<^verbatim>\<open>input\<close>, \<^verbatim>\<open>selectedFile\<close> and \<^verbatim>\<open>mode\<close> of the render it was called in, also
  after it has awaited the read of an attachment. The model takes that read in the same step
  as the call: it has no event between the call and the resumption after the read, so what
  other handlers do in that interval is outside the statements below. The selector
  \<^verbatim>\<open>mode\<close> has two values, and the chain of tests is kept as it is written, third branch
  included.
\<close>

definition start_strategy :: "mode \<Rightarrow> string \<Rightarrow> inline_data option \<Rightarrow> task \<Rightarrow> state \<Rightarrow> state" where
  "start_strategy m prompt fileData t s =
     (if m = Claude then
        (if \<not> puter s then on_error t s
         else s\<lparr> calls := calls s @
                    [PuterChat prompt \<lparr> model = ''claude-sonnet-4.5'', stream = True, tools = [] \<rparr>],
                 tasks := tasks s @ [t] \<rparr>)
      else if m = Search then
        (if \<not> puter s then on_error t s
         else s\<lparr> calls := calls s @
                    [PuterChat prompt
                       \<lparr> model = ''openai/gpt-5.2-chat'', stream = True, tools = [''web_search''] \<rparr>],
                 tasks := tasks s @ [t] \<rparr>)
      else s\<lparr> calls := calls s @ [GenerateChatResponse prompt fileData False False],
              tasks := tasks s @ [t\<lparr> streaming := False \<rparr>] \<rparr>)"

definition handleSubmit :: "nat \<Rightarrow> nat \<Rightarrow> state \<Rightarrow> error + state" where
  "handleSubmit now1 now2 s =
     (if trim (input s) = [] \<and> selectedFile s = None then Inr s
      else
        (case ingest (selectedFile s) of
           Inl e \<Rightarrow> Inl e
         | Inr g \<Rightarrow>
             (let userMessage =
                    \<lparr> id_m = toString now1, role = User, content = input s,
                      file_m = userFile g, isThinking = None \<rparr>;
                  updatedMessages1 = messages s @ [userMessage];
                  s1 = saveToCloud updatedMessages1 (s\<lparr> messages := updatedMessages1 \<rparr>);
                  s2 = s1\<lparr> input := [], selectedFile := None, isLoading := True \<rparr>;
                  aiId = toString (now2 + 1);
                  um2 = updatedMessages1 @
                    [\<lparr> id_m = aiId, role = Ai, content = [], file_m = None,
                       isThinking = Some True \<rparr>];
                  s3 = s2\<lparr> messages := um2 \<rparr>;
                  prompt = compose_prompt (content userMessage) (extractedText g);
                  t = \<lparr> updatedMessages2 = um2, aiMessageId = aiId, text_acc = [],
                        streaming = True, finished = False \<rparr>
              in Inr (start_strategy (mode_s s) prompt (fileDataForApi g) t s3))))"

text \<open>
  \<^verbatim>\<open>generateChatResponse\<close> (services/ai.ts) builds the request parts: the inline data
  first when a file is given, then the prompt.
\<close>

datatype part = InlineData inline_data | TextPart string

definition request_parts :: "string \<Rightarrow> inline_data option \<Rightarrow> part list" where
  "request_parts prompt f =
     (case f of None \<Rightarrow> [] | Some d \<Rightarrow> [InlineData d]) @ [TextPart prompt]"

subsection \<open>Voice input\<close>

text \<open>
  \<^verbatim>\<open>handleVoiceInput\<close>: a click while recording stops the recorder, whose \<^verbatim>\<open>onstop\<close>
  handler then runs; a click while idle asks for the microphone and changes nothing until it
  is granted. \<open>stopped\<close> counts the recorders stopped whose handler has not run yet.
\<close>

definition handleVoiceInput :: "state \<Rightarrow> state" where
  "handleVoiceInput s =
     (if isRecording s then s\<lparr> isRecording := False, stopped := stopped s + 1 \<rparr> else s)"

text \<open>
  \<^verbatim>\<open>mediaRecorder.onstop\<close> up to its suspension on the transcription: it raises the
  loading flag, and without the provider client it throws at once, so that \<^verbatim>\<open>finally\<close>
  lowers the flag again. \<open>transcribing\<close> counts the handlers that await a transcript.
\<close>

definition onstop :: "state \<Rightarrow> state" where
  "onstop s =
     (if \<not> puter s then s\<lparr> isLoading := False \<rparr>
      else s\<lparr> isLoading := True, transcribing := transcribing s + 1 \<rparr>)"

text \<open>
  Its resumption with the transcript:
  \<^verbatim>\<open>if (text) setInput((prev) => prev + (prev ? ' ' : '') + text)\<close>, then \<^verbatim>\<open>finally\<close> lowers
  the loading flag, whatever else is in flight.
\<close>

definition onTranscript :: "string \<Rightarrow> state \<Rightarrow> state" where
  "onTranscript t s =
     (if t \<noteq> [] then s\<lparr> input := input s @ (if input s \<noteq> [] then '' '' else []) @ t \<rparr>
      else s)\<lparr> isLoading := False \<rparr>"

section \<open>Events\<close>

text \<open>
  What can happen to the component between two renders: the user acts, or a suspended
  \<^verbatim>\<open>handleSubmit\<close> (the \<open>k\<close>-th started) is resumed with a part of the stream, with its
  end, with the single result of the third branch, or with a failure; the effect that
  loads the stored transcript sets the messages to the array it parsed; the microphone is
  granted, a stopped recorder calls its handler, a transcription answers or fails. The send
  button is
  \<^verbatim>\<open>disabled={(!input.trim() && !selectedFile) || isLoading}\<close>; the text area calls
  \<^verbatim>\<open>handleSubmit\<close> on Enter without Shift.
\<close>

datatype event =
  SetInput string
| SelectFile file_obj
| ClearFile
| SetMode mode
| ClickSend nat nat
| PressEnter nat nat
| StreamPart nat "string option"
| StreamEnd nat
| Resolved nat string
| Failed nat
| ClickDelete string
| ClickNewChat
| CloudLoaded "message list"
| ClickMic
| MicGranted
| RecorderStopped
| Transcribed string
| TranscribeFailed

definition send_disabled :: "state \<Rightarrow> bool" where
  "send_disabled s = ((trim (input s) = [] \<and> selectedFile s = None) \<or> isLoading s)"

definition submit :: "nat \<Rightarrow> nat \<Rightarrow> state \<Rightarrow> state" where
  "submit now1 now2 s = (case handleSubmit now1 now2 s of Inl e \<Rightarrow> s | Inr s' \<Rightarrow> s')"

definition live :: "state \<Rightarrow> nat \<Rightarrow> bool" where
  "live s k = (k < length (tasks s) \<and> \<not> finished (tasks s ! k))"

definition finish :: "nat \<Rightarrow> state \<Rightarrow> state" where
  "finish k s = s\<lparr> tasks := (tasks s)[k := (tasks s ! k)\<lparr> finished := True \<rparr>] \<rparr>"

fun step :: "event \<Rightarrow> state \<Rightarrow> state" where
  "step (SetInput v) s = s\<lparr> input := v \<rparr>"
| "step (SelectFile f) s = s\<lparr> selectedFile := Some f \<rparr>"
| "step ClearFile s = s\<lparr> selectedFile := None \<rparr>"
| "step (SetMode m) s = s\<lparr> mode_s := m \<rparr>"
| "step (ClickSend now1 now2) s = (if send_disabled s then s else submit now1 now2 s)"
| "step (PressEnter now1 now2) s = submit now1 now2 s"
| "step (StreamPart k p) s =
     (if live s k \<and> streaming (tasks s ! k) then
        (case on_part p (tasks s ! k) s of (t', s') \<Rightarrow> s'\<lparr> tasks := (tasks s')[k := t'] \<rparr>)
      else s)"
| "step (StreamEnd k) s =
     (if live s k \<and> streaming (tasks s ! k) then
        finish k (on_final (tasks s ! k) (text_acc (tasks s ! k)) s)
      else s)"
| "step (Resolved k r) s =
     (if live s k \<and> \<not> streaming (tasks s ! k) then finish k (on_final (tasks s ! k) r s)
      else s)"
| "step (Failed k) s = (if live s k then finish k (on_error (tasks s ! k) s) else s)"
| "step (ClickDelete i) s = handleDeleteMessage i s"
| "step ClickNewChat s = handleNewChat s"
| "step (CloudLoaded parsed) s = s\<lparr> messages := parsed \<rparr>"
| "step ClickMic s = handleVoiceInput s"
| "step MicGranted s = s\<lparr> isRecording := True \<rparr>"
| "step RecorderStopped s =
     (if 0 < stopped s then (onstop s)\<lparr> stopped := stopped s - 1 \<rparr> else s)"
| "step (Transcribed t) s =
     (if 0 < transcribing s then (onTranscript t s)\<lparr> transcribing := transcribing s - 1 \<rparr>
      else s)"
| "step TranscribeFailed s =
     (if 0 < transcribing s then s\<lparr> isLoading := False, transcribing := transcribing s - 1 \<rparr>
      else s)"

definition run :: "event list \<Rightarrow> state \<Rightarrow> state" where
  "run es s = foldl (\<lambda>st e. step e st) s es"

text \<open>The component as it is mounted, with the provider client loaded or not.\<close>

definition init :: "bool \<Rightarrow> state" where
  "init p =
     \<lparr> messages = [], input = [], isRecording = False, selectedFile = None,
       isLoading = False, isCloudSyncing = False, mode_s = Search, puter = p, saved = [],
       written = [], calls = [], tasks = [], stopped = 0, transcribing = 0 \<rparr>"

section \<open>Notions used in the statements\<close>

text \<open>The prompt argument of a strategy call.\<close>

definition prompt_of :: "strategy_call \<Rightarrow> string" where
  "prompt_of c = (case c of PuterChat p _ \<Rightarrow> p | GenerateChatResponse p _ _ _ \<Rightarrow> p)"

text \<open>The payload argument of a strategy call; \<^verbatim>\<open>puter.ai.chat\<close> is given none.\<close>

definition payload_of :: "strategy_call \<Rightarrow> inline_data option" where
  "payload_of c = (case c of PuterChat _ _ \<Rightarrow> None | GenerateChatResponse _ f _ _ \<Rightarrow> f)"

text \<open>
  \<open>is_doc f d\<close>: the dispatch takes \<open>f\<close> as a Word document or a text file, and reading
  it yields the text \<open>d\<close>.
\<close>

definition is_doc :: "file_obj \<Rightarrow> string \<Rightarrow> bool" where
  "is_doc f d = (\<not> prefix ''image/'' (ftype f) \<and>
     (ext_of f = ''docx'' \<and> extractRawText f = Inr d \<or>
      ext_of f = ''txt'' \<and> text_f f = Inr d))"

text \<open>\<open>is_inline f\<close>: the dispatch takes \<open>f\<close> as a PDF or an image.\<close>

definition is_inline :: "file_obj \<Rightarrow> bool" where
  "is_inline f = (ext_of f = ''pdf'' \<or> prefix ''image/'' (ftype f))"

text \<open>The handler goes past its first line: there is a draft to send.\<close>

definition accepted :: "state \<Rightarrow> bool" where
  "accepted s = (trim (input s) \<noteq> [] \<or> selectedFile s \<noteq> None)"

text \<open>The assistant message as \<^verbatim>\<open>handleSubmit\<close> appends it, and once it is answered.\<close>

definition placeholder :: "string \<Rightarrow> message" where
  "placeholder aiId =
     \<lparr> id_m = aiId, role = Ai, content = [], file_m = None, isThinking = Some True \<rparr>"

definition answered :: "string \<Rightarrow> string \<Rightarrow> message" where
  "answered aiId c =
     \<lparr> id_m = aiId, role = Ai, content = c, file_m = None, isThinking = Some False \<rparr>"

text \<open>The snapshots handed to \<^verbatim>\<open>saveToCloud\<close> between the states \<open>s\<close> and \<open>s'\<close>.\<close>

definition saved_since :: "state \<Rightarrow> state \<Rightarrow> message list list" where
  "saved_since s s' = drop (length (saved s)) (saved s')"

text \<open>What a suspended handler holds does not change while it waits.\<close>

definition closure_eq :: "task \<Rightarrow> task \<Rightarrow> bool" where
  "closure_eq t u = (updatedMessages2 t = updatedMessages2 u \<and> aiMessageId t = aiMessageId u
     \<and> streaming t = streaming u)"

section \<open>Concrete inputs\<close>

text \<open>A text file \<^verbatim>\<open>notes.txt\<close> whose content is \<^verbatim>\<open>Budget: $500\<close>.\<close>

definition notes_txt :: file_obj where
  "notes_txt = \<lparr> fname = ''notes.txt'', ftype = ''text/plain'', createObjectURL = ''blob:1'',
     readAsDataURL = Inl ReadError, extractRawText = Inl ExtractError,
     text_f = Inr ''Budget: $500'' \<rparr>"

text \<open>A finished exchange of two messages.\<close>

definition msg1 :: message where
  "msg1 = \<lparr> id_m = ''5'', role = User, content = ''Hello'', file_m = None, isThinking = None \<rparr>"

definition msg2 :: message where
  "msg2 = answered ''6'' ''Hi there''"

text \<open>An image \<^verbatim>\<open>photo.png\<close> and the data URL the browser reads from it.\<close>

definition photo_png :: file_obj where
  "photo_png = \<lparr> fname = ''photo.png'', ftype = ''image/png'', createObjectURL = ''blob:2'',
     readAsDataURL = Inr ''data:image/png;base64,iVBORw0KGgo='',
     extractRawText = Inl ExtractError, text_f = Inl ReadError \<rparr>"

section \<open>Basic facts\<close>

lemma trim_all_space: "list_all is_space xs \<Longrightarrow> trim xs = []"
proof -
  assume a: "list_all is_space xs"
  then have h: "dropWhile is_space xs = []"
    by (simp add: list_all_iff)
  show ?thesis
    unfolding trim_def h by simp
qed

lemma run_Nil [simp]: "run [] s = s"
  by (simp add: run_def)

lemma run_snoc [simp]: "run (es @ [e]) s = step e (run es s)"
  by (simp add: run_def)

lemma run_Cons: "run (e # es) s = run es (step e s)"
  by (simp add: run_def)

lemma run_append: "run (es @ fs) s = run fs (run es s)"
  by (simp add: run_def)

lemma set_reply_append: "set_reply a c (xs @ ys) = set_reply a c xs @ set_reply a c ys"
  by (simp add: set_reply_def)

lemma set_reply_placeholder: "set_reply a c [placeholder a] = [answered a c]"
  by (simp add: set_reply_def placeholder_def answered_def)

lemma last_set_reply:
  "last (set_reply a c (xs @ [placeholder a])) = answered a c"
  by (simp add: set_reply_append set_reply_placeholder)

text \<open>The state an accepted submission leaves, field by field.\<close>

lemma handleSubmit_accepted:
  assumes "accepted s" and "ingest (selectedFile s) = Inr g" and "puter s"
  shows "\<exists>s1. handleSubmit now1 now2 s = Inr s1
    \<and> messages s1 = messages s @
         [\<lparr> id_m = toString now1, role = User, content = input s, file_m = userFile g,
            isThinking = None \<rparr>, placeholder (toString (now2 + 1))]
    \<and> saved s1 = saved s @
         [messages s @ [\<lparr> id_m = toString now1, role = User, content = input s,
            file_m = userFile g, isThinking = None \<rparr>]]
    \<and> tasks s1 = tasks s @
         [\<lparr> updatedMessages2 = messages s1, aiMessageId = toString (now2 + 1), text_acc = [],
            streaming = True, finished = False \<rparr>]
    \<and> map prompt_of (calls s1) = map prompt_of (calls s) @
         [compose_prompt (input s) (extractedText g)]
    \<and> isLoading s1 \<and> input s1 = [] \<and> selectedFile s1 = None \<and> puter s1"
  using assms
  by (cases "mode_s s")
     (auto simp add: accepted_def handleSubmit_def Let_def start_strategy_def saveToCloud_def
        placeholder_def prompt_of_def)

lemma stream_parts:
  assumes "k < length (tasks s)" and "\<not> finished (tasks s ! k)" and "streaming (tasks s ! k)"
  shows "length (tasks (run (map (StreamPart k) ps) s)) = length (tasks s)
    \<and> tasks (run (map (StreamPart k) ps) s) ! k =
        (tasks s ! k)\<lparr> text_acc := text_acc (tasks s ! k) @ concat (map part_text ps) \<rparr>
    \<and> saved (run (map (StreamPart k) ps) s) = saved s
    \<and> puter (run (map (StreamPart k) ps) s) = puter s
    \<and> messages (run (map (StreamPart k) ps) s) =
        (if ps = [] then messages s
         else set_reply (aiMessageId (tasks s ! k))
                (text_acc (tasks s ! k) @ concat (map part_text ps))
                (updatedMessages2 (tasks s ! k)))"
proof (induction ps rule: rev_induct)
  case Nil
  show ?case by simp
next
  case (snoc p ps)
  let ?s' = "run (map (StreamPart k) ps) s"
  from snoc assms have l: "live ?s' k" and st: "streaming (tasks ?s' ! k)"
    by (simp_all add: live_def)
  show ?case
    using snoc assms l st
    by (simp add: on_part_def Let_def)
qed


lemma tasks_on_error [simp]: "tasks (on_error t s) = tasks s"
  by (simp add: on_error_def saveToCloud_def Let_def)

lemma tasks_on_final [simp]: "tasks (on_final t c s) = tasks s"
  by (simp add: on_final_def saveToCloud_def Let_def)

lemma puter_on_error [simp]: "puter (on_error t s) = puter s"
  by (simp add: on_error_def saveToCloud_def Let_def)

lemma puter_on_final [simp]: "puter (on_final t c s) = puter s"
  by (simp add: on_final_def saveToCloud_def Let_def)

lemma tasks_submit: "\<exists>new. tasks (submit now1 now2 s) = tasks s @ new"
proof (cases "handleSubmit now1 now2 s")
  case (Inl e)
  then show ?thesis by (simp add: submit_def)
next
  case (Inr s')
  then show ?thesis
    by (cases "mode_s s")
       (auto simp add: submit_def handleSubmit_def Let_def start_strategy_def saveToCloud_def
          split: if_splits sum.splits)
qed

lemma puter_submit [simp]: "puter (submit now1 now2 s) = puter s"
proof (cases "handleSubmit now1 now2 s")
  case (Inl e)
  then show ?thesis by (simp add: submit_def)
next
  case (Inr s')
  then show ?thesis
    by (cases "mode_s s")
       (auto simp add: submit_def handleSubmit_def Let_def start_strategy_def saveToCloud_def
          split: if_splits sum.splits)
qed

lemma puter_step [simp]: "puter (step e s) = puter s"
  by (cases e)
     (simp_all add: finish_def on_part_def Let_def handleDeleteMessage_def handleNewChat_def
        saveToCloud_def handleVoiceInput_def onstop_def onTranscript_def)

lemma puter_run [simp]: "puter (run es s) = puter s"
  by (induction es rule: rev_induct) simp_all

lemma closure_eq_refl [simp]: "closure_eq t t"
  by (simp add: closure_eq_def)

lemma closure_step:
  assumes "k < length (tasks s)"
  shows "k < length (tasks (step e s)) \<and> closure_eq (tasks (step e s) ! k) (tasks s ! k)"
proof (cases e)
  case (ClickSend n1 n2)
  obtain new where "tasks (submit n1 n2 s) = tasks s @ new"
    using tasks_submit by blast
  with assms ClickSend show ?thesis by (simp add: nth_append)
next
  case (PressEnter n1 n2)
  obtain new where "tasks (submit n1 n2 s) = tasks s @ new"
    using tasks_submit by blast
  with assms PressEnter show ?thesis by (simp add: nth_append)
next
  case (StreamPart j p)
  with assms show ?thesis
    by (auto simp add: on_part_def Let_def nth_list_update closure_eq_def live_def)
next
  case (StreamEnd j)
  with assms show ?thesis
    by (auto simp add: finish_def nth_list_update closure_eq_def live_def)
next
  case (Resolved j r)
  with assms show ?thesis
    by (auto simp add: finish_def nth_list_update closure_eq_def live_def)
next
  case (Failed j)
  with assms show ?thesis
    by (auto simp add: finish_def nth_list_update closure_eq_def live_def)
qed (use assms in \<open>simp_all add: handleDeleteMessage_def handleNewChat_def saveToCloud_def
      Let_def handleVoiceInput_def onstop_def onTranscript_def\<close>)

lemma closure_run:
  assumes "k < length (tasks s)"
  shows "k < length (tasks (run es s)) \<and> closure_eq (tasks (run es s) ! k) (tasks s ! k)"
proof (induction es rule: rev_induct)
  case Nil
  show ?case using assms by simp
next
  case (snoc e es)
  then show ?case
    using closure_step [of k "run es s" e] by (auto simp add: closure_eq_def)
qed

subsection \<open>An accepted submission and its closure\<close>

lemma submit_accepted:
  assumes "accepted s" and "ingest (selectedFile s) = Inr g" and "puter s"
  shows "messages (submit now1 now2 s) = messages s @
         [\<lparr> id_m = toString now1, role = User, content = input s, file_m = userFile g,
            isThinking = None \<rparr>, placeholder (toString (now2 + 1))]"
    and "saved (submit now1 now2 s) = saved s @
         [messages s @ [\<lparr> id_m = toString now1, role = User, content = input s,
            file_m = userFile g, isThinking = None \<rparr>]]"
    and "tasks (submit now1 now2 s) = tasks s @
         [\<lparr> updatedMessages2 = messages (submit now1 now2 s),
            aiMessageId = toString (now2 + 1), text_acc = [],
            streaming = True, finished = False \<rparr>]"
  using handleSubmit_accepted [OF assms, of now1 now2]
  by (auto simp add: submit_def)

lemma last_set_reply2:
  "last (set_reply a c (xs @ [u, placeholder a])) = answered a c"
  using last_set_reply [of a c "xs @ [u]"] by simp

text \<open>Without the provider client the handler throws before any call and lands in catch.\<close>

lemma submit_no_puter:
  assumes "accepted s" and "ingest (selectedFile s) = Inr g" and "\<not> puter s"
  shows "messages (submit now1 now2 s) =
       set_reply (toString (now2 + 1)) apology (messages s @
         [\<lparr> id_m = toString now1, role = User, content = input s, file_m = userFile g,
            isThinking = None \<rparr>, placeholder (toString (now2 + 1))])
    \<and> saved (submit now1 now2 s) = saved s @
         [messages s @ [\<lparr> id_m = toString now1, role = User, content = input s,
            file_m = userFile g, isThinking = None \<rparr>], messages (submit now1 now2 s)]
    \<and> calls (submit now1 now2 s) = calls s
    \<and> written (submit now1 now2 s) = written s
    \<and> \<not> isLoading (submit now1 now2 s)"
  using assms
  by (cases "mode_s s")
     (simp_all add: submit_def accepted_def handleSubmit_def Let_def start_strategy_def
        on_error_def saveToCloud_def placeholder_def)

lemma step_Failed:
  assumes "live s k"
  shows "messages (step (Failed k) s) =
       set_reply (aiMessageId (tasks s ! k)) apology (updatedMessages2 (tasks s ! k))"
    and "saved (step (Failed k) s) = saved s @ [messages (step (Failed k) s)]"
    and "written (step (Failed k) s) =
       (if puter s then written s @ [messages (step (Failed k) s)] else written s)"
    and "\<not> isLoading (step (Failed k) s)"
    and "calls (step (Failed k) s) = calls s"
    and "\<not> live (step (Failed k) s) k"
  using assms by (simp_all add: finish_def on_error_def Let_def saveToCloud_def live_def)

lemma step_StreamEnd:
  assumes "live s k" and "streaming (tasks s ! k)"
  shows "messages (step (StreamEnd k) s) =
       set_reply (aiMessageId (tasks s ! k)) (text_acc (tasks s ! k)) (updatedMessages2 (tasks s ! k))"
    and "saved (step (StreamEnd k) s) = saved s @ [messages (step (StreamEnd k) s)]"
    and "\<not> isLoading (step (StreamEnd k) s)"
  using assms by (simp_all add: finish_def on_final_def Let_def saveToCloud_def)

text \<open>Folding a part of the stream saves nothing; after its end the submission is over.\<close>

lemma saved_step_part: "saved (step (StreamPart j p) s) = saved s"
  by (simp add: on_part_def Let_def)

lemma live_after_end:
  assumes "live s k" and "streaming (tasks s ! k)"
  shows "\<not> live (step (StreamEnd k) s) k"
  using assms by (simp add: finish_def on_final_def Let_def saveToCloud_def live_def)

text \<open>The closure of the submission started in \<open>s\<close>, after any further events.\<close>

lemma closure_after_submit:
  assumes "accepted s" and "ingest (selectedFile s) = Inr g" and "puter s"
  shows "updatedMessages2 (tasks (run es (submit now1 now2 s)) ! length (tasks s)) =
       messages s @ [\<lparr> id_m = toString now1, role = User, content = input s,
          file_m = userFile g, isThinking = None \<rparr>, placeholder (toString (now2 + 1))]"
    and "aiMessageId (tasks (run es (submit now1 now2 s)) ! length (tasks s)) =
       toString (now2 + 1)"
    and "streaming (tasks (run es (submit now1 now2 s)) ! length (tasks s))"
proof -
  note sub = submit_accepted [OF assms, of now1 now2]
  have k: "length (tasks s) < length (tasks (submit now1 now2 s))"
    by (simp add: sub(3))
  from closure_run [OF k, of es]
  have c: "closure_eq (tasks (run es (submit now1 now2 s)) ! length (tasks s))
      (tasks (submit now1 now2 s) ! length (tasks s))"
    by simp
  have t: "tasks (submit now1 now2 s) ! length (tasks s) =
      \<lparr> updatedMessages2 = messages (submit now1 now2 s),
        aiMessageId = toString (now2 + 1), text_acc = [],
        streaming = True, finished = False \<rparr>"
    by (simp add: sub(3))
  show "updatedMessages2 (tasks (run es (submit now1 now2 s)) ! length (tasks s)) =
       messages s @ [\<lparr> id_m = toString now1, role = User, content = input s,
          file_m = userFile g, isThinking = None \<rparr>, placeholder (toString (now2 + 1))]"
    using c by (simp add: closure_eq_def t sub(1))
  show "aiMessageId (tasks (run es (submit now1 now2 s)) ! length (tasks s)) =
       toString (now2 + 1)"
    using c by (simp add: closure_eq_def t)
  show "streaming (tasks (run es (submit now1 now2 s)) ! length (tasks s))"
    using c by (simp add: closure_eq_def t)
qed

subsection \<open>Pending messages\<close>

lemma pending_count_append:
  "pending_count (xs @ ys) = pending_count xs + pending_count ys"
  by (simp add: pending_count_def)

lemma pending_count_set_reply:
  "pending_count xs = 0 \<Longrightarrow> pending_count (set_reply a c xs) = 0"
  by (auto simp add: pending_count_def set_reply_def pending_def filter_empty_conv)

lemma pending_count_final:
  assumes "pending_count xs = 0" and "isThinking u = None"
  shows "pending_count (set_reply a c (xs @ [u, placeholder a])) = 0"
proof -
  have "pending_count (xs @ [u]) = 0"
    using assms by (simp add: pending_count_def pending_def)
  then have "pending_count (set_reply a c (xs @ [u])) = 0"
    by (rule pending_count_set_reply)
  moreover have "set_reply a c (xs @ [u, placeholder a]) =
      set_reply a c (xs @ [u]) @ [answered a c]"
    using set_reply_append [of a c "xs @ [u]" "[placeholder a]"]
    by (simp add: set_reply_placeholder)
  ultimately show ?thesis
    by (simp add: pending_count_append) (simp add: pending_count_def pending_def answered_def)
qed

lemma saved_since_append: "saved s' = saved s @ xs \<Longrightarrow> saved_since s s' = xs"
  by (simp add: saved_since_def)

subsection \<open>Unfolding the model on concrete inputs\<close>

lemmas eval_defs =
  run_def init_def send_disabled_def submit_def handleSubmit_def trim_def is_space_def
  ingest_def compose_prompt_def start_strategy_def saveToCloud_def Let_def toString.simps
  pending_count_def pending_def live_def on_part_def on_final_def on_error_def finish_def
  set_reply_def part_text_def digit_char_def handleDeleteMessage_def handleNewChat_def placeholder_def
  answered_def accepted_def

section \<open>Claims\<close>

subsection \<open>C8: a blank draft with no attachment\<close>

text \<open>
  C8. Submitting a draft that is empty or holds white space only (any of the characters that
  \<^verbatim>\<open>trim\<close> strips, the no-break space included), with no attachment, is a no-op. The
  handler returns at its first line, so the whole state is the one before: the transcript,
  the log of strategy calls and the log of saved snapshots are unchanged. This holds on both
  ways into the handler, the send button and the Enter key.
\<close>

theorem submit_blank_noop:
  assumes "list_all is_space (input s)" and "selectedFile s = None"
  shows "handleSubmit now1 now2 s = Inr s
    \<and> step (PressEnter now1 now2) s = s
    \<and> step (ClickSend now1 now2) s = s"
  using assms by (simp add: handleSubmit_def submit_def trim_all_space)

theorem submit_blank_noop_witness:
  "handleSubmit 5 5 ((init True)\<lparr> input := [CHR 0x20, CHR 0x0A, CHR 0xA0] \<rparr>)
     = Inr ((init True)\<lparr> input := [CHR 0x20, CHR 0x0A, CHR 0xA0] \<rparr>)
   \<and> messages (step (PressEnter 5 5)
       ((init True)\<lparr> input := [CHR 0x20, CHR 0x0A, CHR 0xA0] \<rparr>)) = []
   \<and> calls (step (PressEnter 5 5)
       ((init True)\<lparr> input := [CHR 0x20, CHR 0x0A, CHR 0xA0] \<rparr>)) = []"
  using submit_blank_noop [of "(init True)\<lparr> input := [CHR 0x20, CHR 0x0A, CHR 0xA0] \<rparr>" 5 5]
  by (simp add: init_def is_space_def)

subsection \<open>C7 and C10: the prompt of a document\<close>

lemma ingest_doc:
  "is_doc f d \<Longrightarrow> ingest (Some f) =
     Inr \<lparr> userFile = Some \<lparr> name = fname f, type_f = ftype f, url = createObjectURL f \<rparr>,
           fileDataForApi = None, extractedText = d \<rparr>"
  by (auto simp add: is_doc_def ingest_def Let_def)

lemma submit_doc_prompt:
  assumes "selectedFile s = Some f" and "is_doc f d" and "puter s"
  shows "map prompt_of (calls (submit now1 now2 s)) =
     map prompt_of (calls s) @ [compose_prompt (input s) d]"
proof -
  have a: "accepted s" using assms by (simp add: accepted_def)
  have i: "ingest (selectedFile s) =
      Inr \<lparr> userFile = Some \<lparr> name = fname f, type_f = ftype f, url = createObjectURL f \<rparr>,
            fileDataForApi = None, extractedText = d \<rparr>"
    using assms ingest_doc by simp
  from handleSubmit_accepted [OF a i \<open>puter s\<close>, of now1 now2]
  show ?thesis by (auto simp add: submit_def)
qed

lemma ext_notes: "ext_of notes_txt = ''txt''"
  by (simp add: ext_of_def notes_txt_def toLowerCase_def toLower_char_def)

lemma is_doc_notes: "is_doc notes_txt ''Budget: $500''"
  by (simp add: is_doc_def ext_notes) (simp add: notes_txt_def)

text \<open>
  C7. A Word or text attachment has yielded the text \<open>d\<close>, not empty, and the user has typed
  something. With the provider client loaded, the submission makes one strategy call, and
  its prompt is the header \<^verbatim>\<open>Document Content:\<close> and a line feed, then \<open>d\<close>, then the
  delimiter made of two line feeds and \<^verbatim>\<open>User Query: \<close>, then the typed text as it is:
  both texts are there, the document first.
\<close>

theorem doc_prompt_has_both:
  assumes "selectedFile s = Some f" and "is_doc f d" and "d \<noteq> []" and "input s \<noteq> []"
    and "puter s"
  shows "map prompt_of (calls (submit now1 now2 s)) = map prompt_of (calls s) @
     [''Document Content:'' @ [CHR 0x0A] @ d @ [CHR 0x0A, CHR 0x0A] @ ''User Query: '' @ input s]"
  using assms submit_doc_prompt [of s f d now1 now2]
  by (simp add: compose_prompt_def)

theorem doc_prompt_has_both_witness:
  "map prompt_of (calls (submit 5 5
      ((init True)\<lparr> input := ''Summarize'', selectedFile := Some notes_txt \<rparr>)))
    = [''Document Content:'' @ [CHR 0x0A] @ ''Budget: $500'' @ [CHR 0x0A, CHR 0x0A] @
        ''User Query: Summarize'']"
  using doc_prompt_has_both
    [of "(init True)\<lparr> input := ''Summarize'', selectedFile := Some notes_txt \<rparr>"
      notes_txt "''Budget: $500''" 5 5]
  by (simp add: is_doc_notes init_def)

text \<open>
  C10. The same with nothing typed: the prompt ends with the fixed query
  \<^verbatim>\<open>Analyze this document.\<close> after the delimiter, in place of the empty text.
\<close>

theorem empty_query_default:
  assumes "selectedFile s = Some f" and "is_doc f d" and "d \<noteq> []" and "input s = []"
    and "puter s"
  shows "map prompt_of (calls (submit now1 now2 s)) = map prompt_of (calls s) @
     [''Document Content:'' @ [CHR 0x0A] @ d @ [CHR 0x0A, CHR 0x0A] @ ''User Query: '' @
        ''Analyze this document.'']"
  using assms submit_doc_prompt [of s f d now1 now2]
  by (simp add: compose_prompt_def)

theorem empty_query_default_witness:
  "map prompt_of (calls (submit 5 5 ((init True)\<lparr> selectedFile := Some notes_txt \<rparr>)))
    = [''Document Content:'' @ [CHR 0x0A] @ ''Budget: $500'' @ [CHR 0x0A, CHR 0x0A] @
        ''User Query: Analyze this document.'']"
  using empty_query_default
    [of "(init True)\<lparr> selectedFile := Some notes_txt \<rparr>" notes_txt "''Budget: $500''" 5 5]
  by (simp add: is_doc_notes init_def)

subsection \<open>C5: deleting a message\<close>

text \<open>
  C5. For every id, \<^verbatim>\<open>handleDeleteMessage\<close> keeps, in their order, the messages whose id
  is another one, and persists the new transcript: it hands it to \<^verbatim>\<open>saveToCloud\<close>, which
  writes it to the store when the provider client is loaded (and has nothing to write to
  otherwise). When one message of the transcript has that id, the transcript \<open>xs @ m # ys\<close>
  becomes \<open>xs @ ys\<close>: that message is removed and nothing else changes.
\<close>

theorem delete_removes_that_message:
  "messages (handleDeleteMessage i s) = filter (\<lambda>m. id_m m \<noteq> i) (messages s)
   \<and> saved (handleDeleteMessage i s) = saved s @ [messages (handleDeleteMessage i s)]
   \<and> written (handleDeleteMessage i s) =
       (if puter s then written s @ [messages (handleDeleteMessage i s)] else written s)
   \<and> (messages s = xs @ m # ys \<and> id_m m = i \<and> list_all (\<lambda>x. id_m x \<noteq> i) (xs @ ys)
        \<longrightarrow> messages (handleDeleteMessage i s) = xs @ ys)"
  by (auto simp add: handleDeleteMessage_def Let_def saveToCloud_def list_all_iff filter_id_conv)

theorem delete_removes_that_message_witness:
  "messages (handleDeleteMessage ''5'' ((init True)\<lparr> messages := [msg1, msg2] \<rparr>)) = [msg2]
   \<and> saved (handleDeleteMessage ''5'' ((init True)\<lparr> messages := [msg1, msg2] \<rparr>)) = [[msg2]]
   \<and> written (handleDeleteMessage ''5'' ((init True)\<lparr> messages := [msg1, msg2] \<rparr>)) = [[msg2]]"
  using delete_removes_that_message
    [of "''5''" "(init True)\<lparr> messages := [msg1, msg2] \<rparr>" "[]" msg1 "[msg2]"]
  by (simp add: init_def msg1_def msg2_def answered_def)

subsection \<open>C2: folding the stream\<close>

text \<open>
  C2, as the code has it. A submission is accepted with the provider client loaded, and its
  stream yields the parts \<open>ps\<close>. While the parts are folded, the assistant message (the last of
  the transcript) holds the concatenation of the texts received so far, and it is pending only
  as long as no part has arrived: the first part already sets \<^verbatim>\<open>isThinking\<close> to false.
  After the end of the stream its content is the concatenation of all the parts and it is
  not pending.
\<close>

theorem stream_fold:
  assumes "accepted s" and "ingest (selectedFile s) = Inr g" and "puter s"
  shows "last (messages (run (map (StreamPart (length (tasks s))) ps) (submit now1 now2 s))) =
      (if ps = [] then placeholder (toString (now2 + 1))
       else answered (toString (now2 + 1)) (concat (map part_text ps)))
    \<and> last (messages (run (map (StreamPart (length (tasks s))) ps @ [StreamEnd (length (tasks s))])
          (submit now1 now2 s))) =
      answered (toString (now2 + 1)) (concat (map part_text ps))"
proof -
  let ?k = "length (tasks s)"
  let ?s1 = "submit now1 now2 s"
  note sub = submit_accepted [OF assms, of now1 now2]
  have k: "?k < length (tasks ?s1)"
    and nf: "\<not> finished (tasks ?s1 ! ?k)"
    and st: "streaming (tasks ?s1 ! ?k)"
    by (simp_all add: sub(3))
  note sp = stream_parts [OF k nf st, of ps]
  let ?s2 = "run (map (StreamPart ?k) ps) ?s1"
  have t: "tasks ?s1 ! ?k = \<lparr> updatedMessages2 = messages ?s1,
            aiMessageId = toString (now2 + 1), text_acc = [],
            streaming = True, finished = False \<rparr>"
    by (simp add: sub(3))
  have one: "last (messages ?s2) =
      (if ps = [] then placeholder (toString (now2 + 1))
       else answered (toString (now2 + 1)) (concat (map part_text ps)))"
    using sp by (simp add: t sub(1) last_set_reply2)
  have l2: "live ?s2 ?k" and st2: "streaming (tasks ?s2 ! ?k)"
    using sp by (simp_all add: live_def t sub(3))
  have "messages (step (StreamEnd ?k) ?s2) =
      set_reply (toString (now2 + 1)) (concat (map part_text ps)) (messages ?s1)"
    using l2 st2 sp by (simp add: finish_def on_final_def Let_def saveToCloud_def t)
  then have two: "last (messages (step (StreamEnd ?k) ?s2)) =
      answered (toString (now2 + 1)) (concat (map part_text ps))"
    by (simp add: sub(1) last_set_reply2)
  from one two show ?thesis by simp
qed

theorem stream_fold_witness:
  "last (messages (run [StreamPart 0 (Some ''Hel''), StreamPart 0 (Some ''lo'')]
      (submit 5 5 ((init True)\<lparr> input := ''Hi'' \<rparr>)))) = answered ''6'' ''Hello''
   \<and> last (messages (run [StreamPart 0 (Some ''Hel''), StreamPart 0 (Some ''lo''), StreamEnd 0]
      (submit 5 5 ((init True)\<lparr> input := ''Hi'' \<rparr>)))) = answered ''6'' ''Hello''"
  using stream_fold [of "(init True)\<lparr> input := ''Hi'' \<rparr>"
      "\<lparr> userFile = None, fileDataForApi = None, extractedText = [] \<rparr>"
      "[Some ''Hel'', Some ''lo'']" 5 5]
  by (simp add: eval_defs)

text \<open>
  The claim as the specification words it (the flag stays true until the terminal chunk) fails:
  of a stream of two chunks, the first one alone clears the flag.
\<close>

theorem pending_cleared_by_first_chunk:
  "\<not> pending (last (messages
      (run [SetInput ''Hi'', ClickSend 5 5, StreamPart 0 (Some ''Hel'')] (init True))))
   \<and> content (last (messages
      (run [SetInput ''Hi'', ClickSend 5 5, StreamPart 0 (Some ''Hel''),
            StreamPart 0 (Some ''lo''), StreamEnd 0] (init True)))) = ''Hello''"
  by (simp add: eval_defs)

subsection \<open>C4: a failing strategy\<close>

text \<open>
  When the provider client is not loaded the handler throws before it calls the strategy and
  lands in the same \<^verbatim>\<open>catch\<close> block: the assistant message becomes the apology and
  \<^verbatim>\<open>saveToCloud\<close> is called once more, which writes nothing without the client.
\<close>

lemma no_client_apology:
  assumes "accepted s" and "ingest (selectedFile s) = Inr g" and "\<not> puter s"
  shows "last (messages (submit now1 now2 s)) = answered (toString (now2 + 1)) apology
    \<and> saved (submit now1 now2 s) = saved s @
          [messages s @ [\<lparr> id_m = toString now1, role = User, content = input s,
             file_m = userFile g, isThinking = None \<rparr>], messages (submit now1 now2 s)]
    \<and> written (submit now1 now2 s) = written s
    \<and> calls (submit now1 now2 s) = calls s"
proof -
  note n = submit_no_puter [OF assms, of now1 now2]
  have "last (messages (submit now1 now2 s)) = answered (toString (now2 + 1)) apology"
    using n by (simp add: last_set_reply2)
  with n show ?thesis by simp
qed

text \<open>
  C4. A submission is accepted with the provider client loaded, and it is still in flight
  after any further events \<open>es\<close> (parts of its stream, other handlers). When its strategy
  fails, the assistant message (the last of the transcript) becomes the fixed apology and is
  not pending, \<^verbatim>\<open>saveToCloud\<close> is called exactly once, with that transcript, and it
  writes it exactly once; the loading flag is lowered and the submission is over, so that
  nothing more comes from it.
\<close>

theorem failure_apology:
  assumes "accepted s" and "ingest (selectedFile s) = Inr g" and "puter s"
    and "live (run es (submit now1 now2 s)) (length (tasks s))"
  shows "last (messages (step (Failed (length (tasks s))) (run es (submit now1 now2 s)))) =
        answered (toString (now2 + 1)) apology
      \<and> saved (step (Failed (length (tasks s))) (run es (submit now1 now2 s))) =
          saved (run es (submit now1 now2 s)) @
            [messages (step (Failed (length (tasks s))) (run es (submit now1 now2 s)))]
      \<and> written (step (Failed (length (tasks s))) (run es (submit now1 now2 s))) =
          written (run es (submit now1 now2 s)) @
            [messages (step (Failed (length (tasks s))) (run es (submit now1 now2 s)))]
      \<and> \<not> isLoading (step (Failed (length (tasks s))) (run es (submit now1 now2 s)))
      \<and> \<not> live (step (Failed (length (tasks s))) (run es (submit now1 now2 s)))
            (length (tasks s))"
proof -
  note cl = closure_after_submit [OF assms(1-3), of es now1 now2]
  note f = step_Failed [OF assms(4)]
  have m: "last (messages (step (Failed (length (tasks s))) (run es (submit now1 now2 s)))) =
      answered (toString (now2 + 1)) apology"
    by (simp add: f(1) cl last_set_reply2 del: step.simps)
  show ?thesis
    using assms(3) m f(2) f(3) f(4) f(6) by (simp del: step.simps)
qed

theorem failure_apology_witness:
  "last (messages (step (Failed 0)
      (run [StreamPart 0 (Some ''Hel'')] (submit 5 5 ((init True)\<lparr> input := ''Hi'' \<rparr>)))))
     = answered ''6'' apology
   \<and> saved (step (Failed 0)
      (run [StreamPart 0 (Some ''Hel'')] (submit 5 5 ((init True)\<lparr> input := ''Hi'' \<rparr>))))
     = [[\<lparr> id_m = ''5'', role = User, content = ''Hi'', file_m = None, isThinking = None \<rparr>],
        [\<lparr> id_m = ''5'', role = User, content = ''Hi'', file_m = None, isThinking = None \<rparr>,
         answered ''6'' apology]]"
  using
    failure_apology [of "(init True)\<lparr> input := ''Hi'' \<rparr>"
      "\<lparr> userFile = None, fileDataForApi = None, extractedText = [] \<rparr>"
      "[StreamPart 0 (Some ''Hel'')]" 5 5]
  by (simp add: eval_defs)

subsection \<open>C9: what is saved\<close>

text \<open>
  C9, as the code has it. A submission is accepted on a transcript with no pending message.
  Every snapshot it hands to \<^verbatim>\<open>saveToCloud\<close> has no pending message, and these are all
  the snapshots it hands over: at the call, the snapshot of the user turn, taken before the
  pending assistant message is appended (and, without the provider client, the snapshot with
  the apology); at a part of the stream, nothing; at the end of the stream or at a failure,
  after any further events \<open>es\<close>, the one snapshot in which the assistant message is answered,
  after which the submission is over.
\<close>

theorem submission_snapshots_not_pending:
  assumes "pending_count (messages s) = 0" and "accepted s" and "ingest (selectedFile s) = Inr g"
  shows "list_all (\<lambda>snap. pending_count snap = 0) (saved_since s (submit now1 now2 s))
    \<and> (puter s \<longrightarrow> saved_since s (submit now1 now2 s) =
          [messages s @ [\<lparr> id_m = toString now1, role = User, content = input s,
             file_m = userFile g, isThinking = None \<rparr>]])
    \<and> saved (step (StreamPart j p) (run es (submit now1 now2 s))) =
        saved (run es (submit now1 now2 s))
    \<and> (puter s \<and> live (run es (submit now1 now2 s)) (length (tasks s)) \<longrightarrow>
        saved_since (run es (submit now1 now2 s))
            (step (StreamEnd (length (tasks s))) (run es (submit now1 now2 s))) =
          [messages (step (StreamEnd (length (tasks s))) (run es (submit now1 now2 s)))]
        \<and> pending_count
            (messages (step (StreamEnd (length (tasks s))) (run es (submit now1 now2 s)))) = 0
        \<and> \<not> live (step (StreamEnd (length (tasks s))) (run es (submit now1 now2 s)))
              (length (tasks s))
        \<and> saved_since (run es (submit now1 now2 s))
            (step (Failed (length (tasks s))) (run es (submit now1 now2 s))) =
          [messages (step (Failed (length (tasks s))) (run es (submit now1 now2 s)))]
        \<and> pending_count
            (messages (step (Failed (length (tasks s))) (run es (submit now1 now2 s)))) = 0
        \<and> \<not> live (step (Failed (length (tasks s))) (run es (submit now1 now2 s)))
              (length (tasks s)))"
proof -
  let ?u = "\<lparr> id_m = toString now1, role = User, content = input s,
          file_m = userFile g, isThinking = None \<rparr>"
  let ?s1 = "submit now1 now2 s"
  let ?s2 = "run es ?s1"
  let ?k = "length (tasks s)"
  have c2: "puter s \<longrightarrow> saved_since s ?s1 = [messages s @ [?u]]"
  proof
    assume p: "puter s"
    note sub = submit_accepted [OF assms(2,3) p, of now1 now2]
    show "saved_since s ?s1 = [messages s @ [?u]]"
      by (rule saved_since_append [OF sub(2)])
  qed
  have c1: "list_all (\<lambda>snap. pending_count snap = 0) (saved_since s ?s1)"
  proof (cases "puter s")
    case True
    with c2 assms(1) show ?thesis
      by (simp add: pending_count_def pending_def)
  next
    case False
    note n = submit_no_puter [OF assms(2,3) False, of now1 now2]
    have q: "pending_count (messages ?s1) = 0"
      using pending_count_final [OF assms(1), of ?u] n by simp
    have "saved_since s ?s1 = [messages s @ [?u], messages ?s1]"
      using n by (simp add: saved_since_def)
    with assms(1) q show ?thesis
      by (simp add: pending_count_def pending_def)
  qed
  have c3: "saved (step (StreamPart j p) ?s2) = saved ?s2"
    by (rule saved_step_part)
  have c4: "puter s \<and> live ?s2 ?k \<longrightarrow>
        saved_since ?s2 (step (StreamEnd ?k) ?s2) = [messages (step (StreamEnd ?k) ?s2)]
        \<and> pending_count (messages (step (StreamEnd ?k) ?s2)) = 0
        \<and> \<not> live (step (StreamEnd ?k) ?s2) ?k
        \<and> saved_since ?s2 (step (Failed ?k) ?s2) = [messages (step (Failed ?k) ?s2)]
        \<and> pending_count (messages (step (Failed ?k) ?s2)) = 0
        \<and> \<not> live (step (Failed ?k) ?s2) ?k"
  proof
    assume a: "puter s \<and> live ?s2 ?k"
    then have pu: "puter s" and l: "live ?s2 ?k" by simp_all
    note cl = closure_after_submit [OF assms(2,3) pu, of es now1 now2]
    note f = step_Failed [OF l]
    note e = step_StreamEnd [OF l cl(3)]
    have pf: "pending_count (messages (step (Failed ?k) ?s2)) = 0"
      using pending_count_final [OF assms(1), of ?u]
      by (simp add: f(1) cl del: step.simps)
    have pe: "pending_count (messages (step (StreamEnd ?k) ?s2)) = 0"
      using pending_count_final [OF assms(1), of ?u]
      by (simp add: e(1) cl del: step.simps)
    from pf pe saved_since_append [OF f(2)] saved_since_append [OF e(2)] f(6)
      live_after_end [OF l cl(3)]
    show "saved_since ?s2 (step (StreamEnd ?k) ?s2) = [messages (step (StreamEnd ?k) ?s2)]
        \<and> pending_count (messages (step (StreamEnd ?k) ?s2)) = 0
        \<and> \<not> live (step (StreamEnd ?k) ?s2) ?k
        \<and> saved_since ?s2 (step (Failed ?k) ?s2) = [messages (step (Failed ?k) ?s2)]
        \<and> pending_count (messages (step (Failed ?k) ?s2)) = 0
        \<and> \<not> live (step (Failed ?k) ?s2) ?k"
      by (simp del: step.simps)
  qed
  from c1 c2 c3 c4 show ?thesis by blast
qed

theorem submission_snapshots_not_pending_witness:
  "saved_since ((init True)\<lparr> input := ''Hi'' \<rparr>) (submit 5 5 ((init True)\<lparr> input := ''Hi'' \<rparr>))
     = [[\<lparr> id_m = ''5'', role = User, content = ''Hi'', file_m = None, isThinking = None \<rparr>]]
   \<and> saved (step (StreamPart 0 (Some ''lo''))
        (run [StreamPart 0 (Some ''Hel'')] (submit 5 5 ((init True)\<lparr> input := ''Hi'' \<rparr>))))
     = [[\<lparr> id_m = ''5'', role = User, content = ''Hi'', file_m = None, isThinking = None \<rparr>]]
   \<and> saved_since (run [StreamPart 0 (Some ''Hel'')] (submit 5 5 ((init True)\<lparr> input := ''Hi'' \<rparr>)))
        (step (StreamEnd 0)
          (run [StreamPart 0 (Some ''Hel'')] (submit 5 5 ((init True)\<lparr> input := ''Hi'' \<rparr>))))
     = [[\<lparr> id_m = ''5'', role = User, content = ''Hi'', file_m = None, isThinking = None \<rparr>,
         answered ''6'' ''Hel'']]
   \<and> pending_count (messages (step (StreamEnd 0)
        (run [StreamPart 0 (Some ''Hel'')] (submit 5 5 ((init True)\<lparr> input := ''Hi'' \<rparr>))))) = 0
   \<and> pending_count (messages (step (Failed 0)
        (run [StreamPart 0 (Some ''Hel'')] (submit 5 5 ((init True)\<lparr> input := ''Hi'' \<rparr>))))) = 0"
  using submission_snapshots_not_pending [where s = "(init True)\<lparr> input := ''Hi'' \<rparr>"
      and g = "\<lparr> userFile = None, fileDataForApi = None, extractedText = [] \<rparr>"
      and es = "[StreamPart 0 (Some ''Hel'')]" and ?now1.0 = 5 and ?now2.0 = 5
      and j = 0 and p = "Some ''lo''"]
  by (simp add: eval_defs saved_since_def)

text \<open>
  The claim as it is worded, for every saved snapshot, fails: deleting the user message
  while the answer is awaited saves the transcript of that moment, pending message included.
\<close>

theorem delete_saves_pending_placeholder:
  "last (saved (run [SetInput ''a'', ClickSend 5 5, ClickDelete ''5''] (init True)))
     = [placeholder ''6'']
   \<and> pending (placeholder ''6'')"
  by (simp add: eval_defs)

subsection \<open>C1 and C3: a second submission while one is in flight\<close>

text \<open>
  C3. The send button is disabled while \<^verbatim>\<open>isLoading\<close> holds, but \<^verbatim>\<open>handleSubmit\<close>
  itself does not test it, and the Enter key calls it directly. With one submission in flight
  and a new draft typed, a click on the send button changes nothing, and Enter submits again:
  two more messages, one more strategy call.
\<close>

theorem enter_while_loading_not_rejected:
  "isLoading (run [SetInput ''a'', ClickSend 5 5, SetInput ''b''] (init True))
   \<and> step (ClickSend 7 7) (run [SetInput ''a'', ClickSend 5 5, SetInput ''b''] (init True))
      = run [SetInput ''a'', ClickSend 5 5, SetInput ''b''] (init True)
   \<and> length (messages (run [SetInput ''a'', ClickSend 5 5, SetInput ''b''] (init True))) = 2
   \<and> length (messages (step (PressEnter 7 7)
        (run [SetInput ''a'', ClickSend 5 5, SetInput ''b''] (init True)))) = 4
   \<and> length (calls (run [SetInput ''a'', ClickSend 5 5, SetInput ''b''] (init True))) = 1
   \<and> length (calls (step (PressEnter 7 7)
        (run [SetInput ''a'', ClickSend 5 5, SetInput ''b''] (init True)))) = 2"
  by (simp add: eval_defs)

text \<open>
  C1. At most one message of the transcript is pending at any moment, whatever the sequence of
  submissions, deletions and new sessions. On the code this fails at the second submission
  above: the handler appends a new pending message to a transcript that still holds the
  pending message of the first submission, and the transcript holds two.
\<close>

theorem two_pending_after_enter:
  "pending_count (messages
     (run [SetInput ''a'', ClickSend 5 5, SetInput ''b'', PressEnter 7 7] (init True))) = 2"
  by (simp add: eval_defs)

subsection \<open>C6: an image or a PDF\<close>

lemma start_strategy_ignores_payload:
  "start_strategy m p fd t s = start_strategy m p None t s"
  by (cases m) (simp_all add: start_strategy_def)

lemma ingest_inline:
  assumes "is_inline f" and "readAsDataURL f = Inr u"
  shows "ingest (Some f) =
     Inr \<lparr> userFile = Some \<lparr> name = fname f, type_f = ftype f, url = u \<rparr>,
           fileDataForApi = Some \<lparr> data = base64Data_of u, mimeType = ftype f \<rparr>,
           extractedText = [] \<rparr>"
  using assms by (auto simp add: is_inline_def ingest_def Let_def)

lemma request_parts_file:
  "request_parts p (Some d) = [InlineData d, TextPart p]"
  by (simp add: request_parts_def)

text \<open>
  C6. For \<^verbatim>\<open>photo.png\<close> the dispatch builds the inline payload from the data URL and
  records the data URL as the location of the attachment, but the strategy call that follows
  carries the prompt and the options only: the payload is an argument of
  \<^verbatim>\<open>generateChatResponse\<close> alone, in the branch that no value of the mode selects.
\<close>

theorem inline_payload_not_sent:
  "ingest (Some photo_png) =
     Inr \<lparr> userFile = Some \<lparr> name = ''photo.png'', type_f = ''image/png'',
                              url = ''data:image/png;base64,iVBORw0KGgo='' \<rparr>,
           fileDataForApi = Some \<lparr> data = Some ''iVBORw0KGgo='', mimeType = ''image/png'' \<rparr>,
           extractedText = [] \<rparr>
   \<and> calls (run [SelectFile photo_png, SetInput ''What is this?'', ClickSend 5 5] (init True))
     = [PuterChat ''What is this?''
         \<lparr> model = ''openai/gpt-5.2-chat'', stream = True, tools = [''web_search''] \<rparr>]
   \<and> map payload_of
       (calls (run [SelectFile photo_png, SetInput ''What is this?'', ClickSend 5 5] (init True)))
     = [None]"
  by (simp add: eval_defs photo_png_def ext_of_def toLowerCase_def toLower_char_def
      base64Data_of_def payload_of_def)

end
